theory Spec2Isabelle
  imports Main "HOL-Library.Sublist"
begin

section \<open>Replica descriptors and the cluster client (internal/helpers/deployment.go)\<close>

text \<open>
  The constants of deployment.go, lines 21-26.
\<close>

definition AnnotationPreDeleteHookStarted :: string where
  "AnnotationPreDeleteHookStarted = ''vso.secrets.hashicorp.com/pre-delete-hook-started''"

definition AnnotationInMemoryVaultTokensRevoked :: string where
  "AnnotationInMemoryVaultTokensRevoked = ''vso.secrets.hashicorp.com/in-memory-vault-tokens-revoked''"

definition LabelSelectorControlPlane :: string where
  "LabelSelectorControlPlane = ''control-plane=controller-manager''"

definition StringTrue :: string where
  "StringTrue = ''true''"

text \<open>
  A Go \<^verbatim>\<open>map[string]string\<close> is a partial function; \<open>None\<close> is the nil map, which can be
  read (every key is absent) but not assigned to. A \<^verbatim>\<open>corev1.Pod\<close> is reduced to the
  metadata the functions of this file touch or that identify the pod; its spec and status
  are further fields of the same object and travel with it wherever the whole pod does.
\<close>

type_synonym gomap = "(string \<rightharpoonup> string) option"

record Pod =
  Name :: string
  Namespace :: string
  Labels :: gomap
  Annotations :: gomap

definition index_map :: "gomap \<Rightarrow> string \<Rightarrow> string option" where
  "index_map m k = (case m of None \<Rightarrow> None | Some f \<Rightarrow> f k)"

text \<open>
  \<^verbatim>\<open>labels.Parse\<close> belongs to the Kubernetes library. It is modelled on the one form of the
  selector grammar this file uses, a single equality requirement \<^verbatim>\<open>key=value\<close> with a
  non-empty key; every other input is an error of the model.
\<close>

datatype selector = Equals string string

definition labels_Parse :: "string \<Rightarrow> string + selector" where
  "labels_Parse s =
     (case dropWhile (\<lambda>c. c \<noteq> CHR ''='') s of
        [] \<Rightarrow> Inl (''unable to parse requirement: '' @ s)
      | _ # v \<Rightarrow>
          if takeWhile (\<lambda>c. c \<noteq> CHR ''='') s = [] \<or> CHR ''='' \<in> set v
          then Inl (''unable to parse requirement: '' @ s)
          else Inr (Equals (takeWhile (\<lambda>c. c \<noteq> CHR ''='') s) v))"

text \<open>
  JSON values as far as a pod's metadata needs them: strings and objects. An object is a
  finite map from member names to values; \<^verbatim>\<open>json.Marshal\<close> writes the members of a Go map
  sorted by key, so the map fixes the bytes. The struct tags of \<^verbatim>\<open>metav1.ObjectMeta\<close> mark
  \<^verbatim>\<open>name\<close>, \<^verbatim>\<open>namespace\<close>, \<^verbatim>\<open>labels\<close> and \<^verbatim>\<open>annotations\<close> as \<^verbatim>\<open>omitempty\<close>: an empty string and
  a nil or empty map are left out. Marshalling a pod cannot fail, so the error branch of
  line 108 is present in the model and never taken.
\<close>

datatype json = JString string | JObject "string \<Rightarrow> json option"

definition json_of_map :: "(string \<rightharpoonup> string) \<Rightarrow> json" where
  "json_of_map m = JObject (\<lambda>k. map_option JString (m k))"

definition omitempty_string :: "string \<Rightarrow> string \<Rightarrow> (string \<rightharpoonup> json)" where
  "omitempty_string k s = (if s = [] then Map.empty else [k \<mapsto> JString s])"

definition omitempty_map :: "string \<Rightarrow> gomap \<Rightarrow> (string \<rightharpoonup> json)" where
  "omitempty_map k m =
     (case m of
        None \<Rightarrow> Map.empty
      | Some f \<Rightarrow> if f = Map.empty then Map.empty else [k \<mapsto> json_of_map f])"

definition json_ObjectMeta :: "Pod \<Rightarrow> json" where
  "json_ObjectMeta pod =
     JObject (omitempty_string ''name'' (Name pod)
              ++ omitempty_string ''namespace'' (Namespace pod)
              ++ omitempty_map ''labels'' (Labels pod)
              ++ omitempty_map ''annotations'' (Annotations pod))"

definition json_Marshal :: "Pod \<Rightarrow> string + json" where
  "json_Marshal pod = Inr (JObject [''metadata'' \<mapsto> json_ObjectMeta pod])"

text \<open>Following a path of member names into a JSON value.\<close>

fun json_path :: "json \<Rightarrow> string list \<Rightarrow> json option" where
  "json_path j [] = Some j"
| "json_path (JString s) (k # ks) = None"
| "json_path (JObject f) (k # ks) =
     (case f k of None \<Rightarrow> None | Some j \<Rightarrow> json_path j ks)"

text \<open>
  What the process does to the outside world, in order: the calls on the cluster client,
  the lines it logs, and its sleeps (in milliseconds).
\<close>

datatype patch_type = JSONPatchType | MergePatchType | StrategicMergePatchType | ApplyPatchType

datatype event =
    ListCall selector
  | PatchCall Pod patch_type json
  | LogError string string
  | LogInfo string
  | Sleep nat

text \<open>
  The world the process runs in has some state \<open>'w\<close> (the cluster store, the network,
  the clock). The client, the context and the runtime are functions of it:
  \<^item> \<open>c_List\<close>: \<^verbatim>\<open>c.List(ctx, &list, selector)\<close>, an error message or the items;
  \<^item> \<open>c_Patch\<close>: \<^verbatim>\<open>c.Patch(ctx, &pod, client.RawPatch(t, data))\<close>, the error message if it fails;
  \<^item> \<open>ctx_Done\<close>: whether \<^verbatim>\<open>ctx.Done()\<close> is closed, and \<open>ctx_Err\<close> the message of \<^verbatim>\<open>ctx.Err()\<close>;
  \<^item> \<open>time_Sleep\<close>: the world after the process has slept (others act meanwhile).
  A run threads the world and the trace of events so far.
\<close>

record 'w env =
  c_List :: "selector \<Rightarrow> 'w \<Rightarrow> (string + Pod list) \<times> 'w"
  c_Patch :: "Pod \<Rightarrow> patch_type \<Rightarrow> json \<Rightarrow> 'w \<Rightarrow> string option \<times> 'w"
  ctx_Done :: "'w \<Rightarrow> bool"
  ctx_Err :: "'w \<Rightarrow> string"
  time_Sleep :: "nat \<Rightarrow> 'w \<Rightarrow> 'w"

subsection \<open>AwaitInMemoryVaultTokensRevoked (lines 28-58)\<close>

text \<open>
  The function returns nothing; a run that ends is told apart by the return statement it
  took: line 32 (the selector did not parse), line 39 (the context is done) or line 51
  (a listed pod carries the annotation).
\<close>

datatype exit = ParseFailed | Cancelled | Revoked

text \<open>Lines 48-53: the scan of the listed pods.\<close>

definition tokens_revoked :: "Pod \<Rightarrow> bool" where
  "tokens_revoked pod =
     (case index_map (Annotations pod) AnnotationInMemoryVaultTokensRevoked of
        None \<Rightarrow> False
      | Some v \<Rightarrow> v = StringTrue)"

text \<open>
  Lines 35-57. The loop has no bound, so it is a partial function: \<open>None\<close> is the run
  that never returns.
\<close>

partial_function (option) await_loop ::
  "'w env \<Rightarrow> selector \<Rightarrow> 'w \<Rightarrow> event list \<Rightarrow> (exit \<times> 'w \<times> event list) option" where
  "await_loop e sel w tr =
     (if ctx_Done e w
      then Some (Cancelled, w,
                 tr @ [LogError (ctx_Err e w) ''failed to await in-memory vault tokens revoked''])
      else (case c_List e sel w of
              (Inl err, w') \<Rightarrow>
                await_loop e sel (time_Sleep e 300 w')
                  (tr @ [ListCall sel, LogError err ''failed to get pod list'', Sleep 300])
            | (Inr items, w') \<Rightarrow>
                if list_ex tokens_revoked items
                then Some (Revoked, w',
                           tr @ [ListCall sel, LogInfo ''Operator pods annotations updated''])
                else await_loop e sel (time_Sleep e 300 w') (tr @ [ListCall sel, Sleep 300])))"

definition AwaitInMemoryVaultTokensRevoked ::
  "'w env \<Rightarrow> 'w \<Rightarrow> event list \<Rightarrow> (exit \<times> 'w \<times> event list) option" where
  "AwaitInMemoryVaultTokensRevoked e w tr =
     (case labels_Parse LabelSelectorControlPlane of
        Inl err \<Rightarrow> Some (ParseFailed, w, tr @ [LogError err ''failed to parse label selector''])
      | Inr sel \<Rightarrow> await_loop e sel w tr)"

subsection \<open>The standard library: strings.Join and fmt.Errorf\<close>

fun strings_Join :: "string list \<Rightarrow> string \<Rightarrow> string" where
  "strings_Join [] sep = []"
| "strings_Join [x] sep = x"
| "strings_Join (x # y # xs) sep = x @ sep @ strings_Join (y # xs) sep"

text \<open>
  Line 116 passes the joined messages to \<^verbatim>\<open>fmt.Errorf\<close> as its format string, with no
  operands. Go's \<^verbatim>\<open>doPrintf\<close> copies the text up to a \<^verbatim>\<open>%\<close> and reads a directive after it:
  flags, an argument index \<^verbatim>\<open>[n]\<close>, a width, a precision, an index again, and the verb.
  With no operand to print, \<^verbatim>\<open>%%\<close> writes a percent sign and every other directive
  writes an error marker in place of itself. The functions below follow \<^verbatim>\<open>doPrintf\<close>,
  \<^verbatim>\<open>argNumber\<close>, \<^verbatim>\<open>parseArgNumber\<close> and \<^verbatim>\<open>parsenum\<close> of package fmt for an empty operand
  list; a string is its bytes, and each function returns the format that is left.
\<close>

definition is_flag :: "char \<Rightarrow> bool" where
  "is_flag c = (c \<in> set ''#0+- '')"

definition is_digit :: "char \<Rightarrow> bool" where
  "is_digit c = (48 \<le> (of_char c :: nat) \<and> (of_char c :: nat) \<le> 57)"

text \<open>
  \<^verbatim>\<open>parsenum\<close>: whether a number was read, and the rest. A number past 1000000 is
  "too large": no number, and the position jumps to the end.
\<close>

fun parsenum_from :: "nat \<Rightarrow> bool \<Rightarrow> string \<Rightarrow> bool \<times> string" where
  "parsenum_from num isnum [] = (isnum, [])"
| "parsenum_from num isnum (c # cs) =
     (if is_digit c
      then (if 1000000 < num then (False, [])
            else parsenum_from (num * 10 + (of_char c - 48)) True cs)
      else (isnum, c # cs))"

definition parsenum :: "string \<Rightarrow> bool \<times> string" where
  "parsenum s = parsenum_from 0 False s"

text \<open>
  \<^verbatim>\<open>parseArgNumber\<close> on a format that starts with \<^verbatim>\<open>[\<close>: the bytes to consume and whether
  a number stands between the brackets.
\<close>

definition parseArgNumber :: "string \<Rightarrow> nat \<times> bool" where
  "parseArgNumber s =
     (if length s < 3 then (1, False)
      else (let body = takeWhile (\<lambda>c. c \<noteq> CHR '']'') (tl s) in
            if length body = length (tl s) then (1, False)
            else (case parsenum body of
                    (isnum, rest) \<Rightarrow> (length body + 2, isnum \<and> rest = []))))"

text \<open>
  \<^verbatim>\<open>argNumber\<close> with no operands: the rest, whether an index was found, and whether the
  directive's argument number is now bad (no index is within an empty operand list).
\<close>

definition argNumber :: "string \<Rightarrow> string \<times> bool \<times> bool" where
  "argNumber s =
     (case s of
        [] \<Rightarrow> (s, False, False)
      | c # cs \<Rightarrow>
          if c = CHR ''[''
          then (case parseArgNumber s of (wid, ok) \<Rightarrow> (drop wid s, ok, True))
          else (s, False, False))"

text \<open>
  The verb is one rune. \<^verbatim>\<open>utf8.DecodeRuneInString\<close> reads a well-formed UTF-8 sequence
  whole; anything else is one byte read as U+FFFD, which \<^verbatim>\<open>writeRune\<close> writes as the
  bytes EF BF BD.
\<close>

definition between :: "nat \<Rightarrow> nat \<Rightarrow> char \<Rightarrow> bool" where
  "between lo hi c = (lo \<le> of_char c \<and> (of_char c :: nat) \<le> hi)"

definition utf8_size :: "string \<Rightarrow> nat option" where
  "utf8_size s =
     (case s of
        [] \<Rightarrow> None
      | c0 # cs \<Rightarrow>
          if between 0 0x7F c0 then Some 1
          else if between 0xC2 0xDF c0 then
            (case cs of
               c1 # _ \<Rightarrow> if between 0x80 0xBF c1 then Some 2 else None
             | _ \<Rightarrow> None)
          else if between 0xE0 0xEF c0 then
            (case cs of
               c1 # c2 # _ \<Rightarrow>
                 if between (if between 0xE0 0xE0 c0 then 0xA0 else 0x80)
                            (if between 0xED 0xED c0 then 0x9F else 0xBF) c1
                    \<and> between 0x80 0xBF c2
                 then Some 3 else None
             | _ \<Rightarrow> None)
          else if between 0xF0 0xF4 c0 then
            (case cs of
               c1 # c2 # c3 # _ \<Rightarrow>
                 if between (if between 0xF0 0xF0 c0 then 0x90 else 0x80)
                            (if between 0xF4 0xF4 c0 then 0x8F else 0xBF) c1
                    \<and> between 0x80 0xBF c2 \<and> between 0x80 0xBF c3
                 then Some 4 else None
             | _ \<Rightarrow> None)
          else None)"

definition decode_verb :: "string \<Rightarrow> string \<times> string" where
  "decode_verb s =
     (case utf8_size s of
        Some n \<Rightarrow> (take n s, drop n s)
      | None \<Rightarrow> ([CHR 0xEF, CHR 0xBF, CHR 0xBD], drop 1 s))"

text \<open>
  The width: \<^verbatim>\<open>*\<close> asks for an operand and there is none; otherwise digits. The result is
  what is written, the rest, whether the last item read was an index, and whether the
  argument number is bad.
\<close>

definition read_width :: "string \<Rightarrow> bool \<Rightarrow> bool \<Rightarrow> string \<times> string \<times> bool \<times> bool" where
  "read_width s afterIndex bad =
     (case s of
        [] \<Rightarrow> ([], [], afterIndex, bad)
      | c # cs \<Rightarrow>
          if c = CHR ''*'' then (''%!(BADWIDTH)'', cs, False, bad)
          else (case parsenum s of
                  (isnum, rest) \<Rightarrow> ([], rest, afterIndex, bad \<or> (afterIndex \<and> isnum))))"

definition read_precision :: "string \<Rightarrow> bool \<Rightarrow> bool \<Rightarrow> string \<times> string \<times> bool \<times> bool" where
  "read_precision s afterIndex bad =
     (case s of
        [] \<Rightarrow> ([], [], afterIndex, bad)
      | c # cs \<Rightarrow>
          if c = CHR ''.''
          then (case argNumber cs of
                  (r, found, badi) \<Rightarrow>
                    (case r of
                       [] \<Rightarrow> ([], [], found, bad \<or> afterIndex \<or> badi)
                     | c1 # r1 \<Rightarrow>
                         if c1 = CHR ''*''
                         then (''%!(BADPREC)'', r1, False, bad \<or> afterIndex \<or> badi)
                         else ([], snd (parsenum r), found, bad \<or> afterIndex \<or> badi)))
          else ([], s, afterIndex, bad))"

definition read_verb :: "string \<Rightarrow> bool \<Rightarrow> string \<times> string" where
  "read_verb s bad =
     (case s of
        [] \<Rightarrow> (''%!(NOVERB)'', [])
      | _ # _ \<Rightarrow>
          (case decode_verb s of
             (verb, rest) \<Rightarrow>
               if verb = ''%'' then (''%'', rest)
               else if bad then (''%!'' @ verb @ ''(BADINDEX)'', rest)
               else (''%!'' @ verb @ ''(MISSING)'', rest)))"

text \<open>One directive, from the byte after its \<^verbatim>\<open>%\<close>: what is written, and the rest.\<close>

definition directive :: "string \<Rightarrow> string \<times> string" where
  "directive s =
     (case argNumber (dropWhile is_flag s) of
        (s1, afterIndex1, bad1) \<Rightarrow>
          (case read_width s1 afterIndex1 bad1 of
             (out_w, s2, afterIndex2, bad2) \<Rightarrow>
               (case read_precision s2 afterIndex2 bad2 of
                  (out_p, s3, afterIndex3, bad3) \<Rightarrow>
                    (case (if afterIndex3 then (s3, False, False) else argNumber s3) of
                       (s4, found, bad4) \<Rightarrow>
                         (case read_verb s4 (bad3 \<or> bad4) of
                            (out_v, rest) \<Rightarrow> (out_w @ out_p @ out_v, rest))))))"

text \<open>Every stage of a directive returns a suffix of what it was given.\<close>

lemma parsenum_from_length: "length (snd (parsenum_from num isnum s)) \<le> length s"
  by (induction s arbitrary: num isnum) (auto intro: le_SucI)

lemma parsenum_length: "parsenum s = (isnum, rest) \<Longrightarrow> length rest \<le> length s"
  using parsenum_from_length [of 0 False s] by (simp add: parsenum_def)

lemma argNumber_length: "argNumber s = (rest, found, bad) \<Longrightarrow> length rest \<le> length s"
  by (auto simp: argNumber_def split: list.splits if_splits prod.splits)

lemma decode_verb_length: "decode_verb s = (verb, rest) \<Longrightarrow> length rest \<le> length s"
  by (auto simp: decode_verb_def split: option.splits)

lemma read_width_length:
  "read_width s afterIndex bad = (out, rest, afterIndex', bad') \<Longrightarrow> length rest \<le> length s"
  by (auto simp: read_width_def split: list.splits if_splits prod.splits
           dest: parsenum_length)

lemma read_precision_length:
  assumes "read_precision s afterIndex bad = (out, rest, afterIndex', bad')"
  shows "length rest \<le> length s"
proof (cases s)
  case Nil
  with assms show ?thesis by (simp add: read_precision_def)
next
  case (Cons c cs)
  show ?thesis
  proof (cases "c = CHR ''.''")
    case False
    with assms Cons show ?thesis by (simp add: read_precision_def)
  next
    case True
    obtain r found badi where a: "argNumber cs = (r, found, badi)"
      by (cases "argNumber cs") auto
    have r: "length r \<le> length cs" using a by (rule argNumber_length)
    have p: "length (snd (parsenum r)) \<le> length r"
      by (cases "parsenum r") (auto dest: parsenum_length)
    from assms Cons True a have "length rest \<le> length r"
      using p by (auto simp: read_precision_def split: list.splits if_splits)
    with r Cons show ?thesis by simp
  qed
qed

lemma read_verb_length: "read_verb s bad = (out, rest) \<Longrightarrow> length rest \<le> length s"
  by (auto simp: read_verb_def split: list.splits if_splits prod.splits
           dest: decode_verb_length)

lemma directive_length:
  assumes "directive s = (out, rest)"
  shows "length rest \<le> length s"
proof -
  obtain s1 a1 b1 where 1: "argNumber (dropWhile is_flag s) = (s1, a1, b1)"
    by (cases "argNumber (dropWhile is_flag s)") auto
  obtain ow s2 a2 b2 where 2: "read_width s1 a1 b1 = (ow, s2, a2, b2)"
    by (cases "read_width s1 a1 b1") auto
  obtain op s3 a3 b3 where 3: "read_precision s2 a2 b2 = (op, s3, a3, b3)"
    by (cases "read_precision s2 a2 b2") auto
  obtain s4 a4 b4 where 4: "(if a3 then (s3, False, False) else argNumber s3) = (s4, a4, b4)"
    by (cases "if a3 then (s3, False, False) else argNumber s3") auto
  obtain ov r where 5: "read_verb s4 (b3 \<or> b4) = (ov, r)"
    by (cases "read_verb s4 (b3 \<or> b4)") auto
  have "rest = r" using assms 1 2 3 4 5 by (simp add: directive_def)
  moreover have "length r \<le> length s4" using 5 by (rule read_verb_length)
  moreover have "length s4 \<le> length s3"
    using 4 by (auto split: if_splits dest: argNumber_length)
  moreover have "length s3 \<le> length s2" using 3 by (rule read_precision_length)
  moreover have "length s2 \<le> length s1" using 2 by (rule read_width_length)
  moreover have "length s1 \<le> length (dropWhile is_flag s)" using 1 by (rule argNumber_length)
  moreover have "length (dropWhile is_flag s) \<le> length s" by (rule length_dropWhile_le)
  ultimately show ?thesis by simp
qed

text \<open>The format loop of \<^verbatim>\<open>doPrintf\<close>, and \<^verbatim>\<open>fmt.Errorf(format)\<close>: the error's message.\<close>

function fmt_noargs :: "string \<Rightarrow> string" where
  "fmt_noargs [] = []"
| "fmt_noargs (c # cs) =
     (if c = CHR ''%''
      then (case directive cs of (out, rest) \<Rightarrow> out @ fmt_noargs rest)
      else c # fmt_noargs cs)"
  by pat_completeness auto
termination
  by (relation "measure length") (auto simp: less_Suc_eq_le dest: directive_length [OF sym])

definition fmt_Errorf :: "string \<Rightarrow> string" where
  "fmt_Errorf format = fmt_noargs format"

subsection \<open>annotateOperatorPods and its callers (lines 79-119)\<close>

text \<open>
  A call either returns its \<^verbatim>\<open>error\<close> (\<open>None\<close> is nil, \<open>Some\<close> carries the message) or
  panics.
\<close>

datatype 'a outcome = Return 'a | Panic string

text \<open>
  Lines 104-106. The argument \<open>annotations\<close> is the Go map as the \<^verbatim>\<open>range\<close> statement
  visits it: its entries in some order. Assigning to an entry of a nil map panics.
\<close>

fun assign_annotations :: "(string \<times> string) list \<Rightarrow> gomap \<Rightarrow> gomap outcome" where
  "assign_annotations [] m = Return m"
| "assign_annotations ((k, v) # kvs) None = Panic ''assignment to entry in nil map''"
| "assign_annotations ((k, v) # kvs) (Some f) = assign_annotations kvs (Some (f(k \<mapsto> v)))"

text \<open>Lines 103-118: the loop over the listed pods, and what follows it.\<close>

fun annotate_pods ::
  "'w env \<Rightarrow> (string \<times> string) list \<Rightarrow> Pod list \<Rightarrow> string list \<Rightarrow> 'w \<Rightarrow> event list
     \<Rightarrow> string option outcome \<times> 'w \<times> event list" where
  "annotate_pods e annotations [] errs w tr =
     (if length errs \<noteq> 0
      then (Return (Some (fmt_Errorf (strings_Join errs '',''))), w, tr)
      else (Return None, w, tr))"
| "annotate_pods e annotations (pod # pods) errs w tr =
     (case assign_annotations annotations (Annotations pod) of
        Panic msg \<Rightarrow> (Panic msg, w, tr)
      | Return m \<Rightarrow>
          (case json_Marshal (pod\<lparr>Annotations := m\<rparr>) of
             Inl err \<Rightarrow> (Return (Some (''failed to marshal patch payload err='' @ err)), w, tr)
           | Inr pJson \<Rightarrow>
               (case c_Patch e (pod\<lparr>Annotations := m\<rparr>) MergePatchType pJson w of
                  (None, w') \<Rightarrow>
                    annotate_pods e annotations pods errs w'
                      (tr @ [PatchCall (pod\<lparr>Annotations := m\<rparr>) MergePatchType pJson])
                | (Some err, w') \<Rightarrow>
                    annotate_pods e annotations pods (errs @ [err]) w'
                      (tr @ [PatchCall (pod\<lparr>Annotations := m\<rparr>) MergePatchType pJson]))))"

definition annotateOperatorPods ::
  "'w env \<Rightarrow> (string \<times> string) list \<Rightarrow> 'w \<Rightarrow> event list
     \<Rightarrow> string option outcome \<times> 'w \<times> event list" where
  "annotateOperatorPods e annotations w tr =
     (case labels_Parse LabelSelectorControlPlane of
        Inl err \<Rightarrow> (Return (Some (''failed to parse label selector err='' @ err)), w, tr)
      | Inr sel \<Rightarrow>
          (case c_List e sel w of
             (Inl err, w') \<Rightarrow>
               (Return (Some (''failed to list pods err='' @ err)), w', tr @ [ListCall sel])
           | (Inr items, w') \<Rightarrow> annotate_pods e annotations items [] w' (tr @ [ListCall sel])))"

definition AnnotateInMemoryVaultTokensRevoked ::
  "'w env \<Rightarrow> 'w \<Rightarrow> event list \<Rightarrow> string option outcome \<times> 'w \<times> event list" where
  "AnnotateInMemoryVaultTokensRevoked e w tr =
     annotateOperatorPods e [(AnnotationInMemoryVaultTokensRevoked, StringTrue)] w tr"

definition AnnotatePredeleteHookStarted ::
  "'w env \<Rightarrow> 'w \<Rightarrow> event list \<Rightarrow> string option outcome \<times> 'w \<times> event list" where
  "AnnotatePredeleteHookStarted e w tr =
     annotateOperatorPods e [(AnnotationPreDeleteHookStarted, StringTrue)] w tr"

section \<open>Client cache keys (internal/vault)\<close>

text \<open>
  The sources hold the tests of the cache key (cache_key_test.go) and not the file under
  test. The identity validator and the key deriver are modelled from sections 3, 4.1, 4.2
  and 7 of the specification; the constants of the tests are taken from lines 19-24.
\<close>

text \<open>
  Modelled from the spec: the error kinds of section 7 (the sentinel errors of the absent
  cache_key.go), as a closed enumeration. \<open>InvalidIdentityLength\<close> names the offending
  token and \<open>DuplicateIdentity\<close> the colliding pair.
\<close>

datatype role = AuthIdentity | ConnectionIdentity | ProviderIdentity

datatype key_error =
    InvalidIdentityLength string
  | DuplicateIdentity role role
  | KeyLengthExceeded
  | EmptyNamespace
  | ClonedParentNotAllowed

text \<open>
  Modelled from the spec: an identity (section 3), a token with a generation counter.
\<close>

record identity =
  token :: string
  generation :: int

text \<open>
  Modelled from the spec: the required width of a token (36), the width of the hash (the
  22 characters of the tests' \<open>computedHash\<close>) and the maximum total key length, which the
  test "valid-key-at-max-length" reaches with a method of 40 characters.
\<close>

definition REQUIRED_WIDTH :: nat where
  "REQUIRED_WIDTH = 36"

definition HASH_LEN :: nat where
  "HASH_LEN = 22"

definition MAX_TOTAL :: nat where
  "MAX_TOTAL = 63"

text \<open>
  Modelled from the spec: the identity validator of section 4.1.
\<close>

definition validateIdentity :: "string \<Rightarrow> key_error + string" where
  "validateIdentity tok =
     (if length tok = REQUIRED_WIDTH then Inr tok else Inl (InvalidIdentityLength tok))"

text \<open>
  Modelled from the spec: the input of the hash (section 3), the ordered tuple of the
  auth token and generation, the connection token and generation, and the provider
  token. The method label is left out: the tests expect the same hash for two methods
  (lines 56 and 77). The digest itself is not fixed by the specification (section 9) and
  is a parameter \<open>h\<close> of the deriver; \<open>fixed_width\<close> says that it has the width of the hash.
\<close>

type_synonym hash_input = "string \<times> int \<times> string \<times> int \<times> string"

definition canonical :: "identity \<Rightarrow> identity \<Rightarrow> identity \<Rightarrow> hash_input" where
  "canonical authIdentity connIdentity providerIdentity =
     (token authIdentity, generation authIdentity,
      token connIdentity, generation connIdentity, token providerIdentity)"

definition fixed_width :: "(hash_input \<Rightarrow> string) \<Rightarrow> bool" where
  "fixed_width h = (\<forall>x. length (h x) = HASH_LEN)"

text \<open>
  Modelled from the spec: \<open>deriveKey\<close> of section 4.2 (\<^verbatim>\<open>computeClientCacheKey\<close> of the absent
  cache_key.go), its steps in their order and the first failure returned. The auth and
  the connection token are validated; the provider token is exempt from the length check
  and takes part in the uniqueness check (section 3). The bound on the key is checked on
  the length of the method.
\<close>

definition deriveKey ::
  "(hash_input \<Rightarrow> string) \<Rightarrow> identity \<Rightarrow> identity \<Rightarrow> identity \<Rightarrow> string
     \<Rightarrow> key_error + string" where
  "deriveKey h authIdentity connIdentity providerIdentity meth =
     (case validateIdentity (token authIdentity) of
        Inl err \<Rightarrow> Inl err
      | Inr a \<Rightarrow>
          (case validateIdentity (token connIdentity) of
             Inl err \<Rightarrow> Inl err
           | Inr c \<Rightarrow>
               if a = c then Inl (DuplicateIdentity AuthIdentity ConnectionIdentity)
               else if a = token providerIdentity
                 then Inl (DuplicateIdentity AuthIdentity ProviderIdentity)
               else if c = token providerIdentity
                 then Inl (DuplicateIdentity ConnectionIdentity ProviderIdentity)
               else if MAX_TOTAL - 1 - HASH_LEN < length meth then Inl KeyLengthExceeded
               else Inr (meth @ ''-'' @ h (canonical authIdentity connIdentity providerIdentity))))"


section \<open>Vocabulary of the properties\<close>

subsection \<open>The publisher\<close>

text \<open>
  The selector both functions list with, the patch calls of a trace, and the declarative
  reading of the loop: a pod can be assigned to when it has an annotation map or nothing
  is to be assigned; \<open>annotated\<close> is the pod after lines 104-106; \<open>payload\<close> is what line 107
  marshals; \<open>patch_results\<close> patches every pod of a list in turn, whatever the earlier
  patches returned.
\<close>

definition control_plane :: selector where
  "control_plane = Equals ''control-plane'' ''controller-manager''"

fun patch_calls :: "event list \<Rightarrow> (Pod \<times> patch_type \<times> json) list" where
  "patch_calls [] = []"
| "patch_calls (PatchCall pod t j # evs) = (pod, t, j) # patch_calls evs"
| "patch_calls (ev # evs) = patch_calls evs"

definition annotated :: "(string \<times> string) list \<Rightarrow> Pod \<Rightarrow> Pod" where
  "annotated annotations pod =
     pod\<lparr>Annotations := map_option (\<lambda>f. f ++ map_of (rev annotations)) (Annotations pod)\<rparr>"

definition assignable :: "(string \<times> string) list \<Rightarrow> Pod \<Rightarrow> bool" where
  "assignable annotations pod = (annotations = [] \<or> Annotations pod \<noteq> None)"

definition payload :: "Pod \<Rightarrow> json" where
  "payload pod = JObject [''metadata'' \<mapsto> json_ObjectMeta pod]"

definition patch_event :: "(string \<times> string) list \<Rightarrow> Pod \<Rightarrow> event" where
  "patch_event annotations pod =
     PatchCall (annotated annotations pod) MergePatchType (payload (annotated annotations pod))"

fun patch_results :: "'w env \<Rightarrow> Pod list \<Rightarrow> 'w \<Rightarrow> string option list \<times> 'w" where
  "patch_results e [] w = ([], w)"
| "patch_results e (pod # pods) w =
     (case c_Patch e pod MergePatchType (payload pod) w of
        (r, w') \<Rightarrow> (case patch_results e pods w' of (rs, w'') \<Rightarrow> (r # rs, w'')))"

definition failures :: "string option list \<Rightarrow> string list" where
  "failures rs = concat (map (\<lambda>r. case r of None \<Rightarrow> [] | Some m \<Rightarrow> [m]) rs)"

definition error_of :: "string list \<Rightarrow> string option" where
  "error_of errs = (if errs = [] then None else Some (fmt_Errorf (strings_Join errs '','')))"

text \<open>
  The payloads of a trace's patch calls, and the reading of "the payload encodes only the
  changed annotation keys": the merge patch that names the supplied annotations and
  nothing else, \<^verbatim>\<open>{"metadata":{"annotations":{...}}}\<close>.
\<close>

definition only_changed_keys :: "(string \<times> string) list \<Rightarrow> json \<Rightarrow> bool" where
  "only_changed_keys annotations j =
     (j = JObject [''metadata'' \<mapsto> JObject [''annotations'' \<mapsto> json_of_map (map_of annotations)]])"

definition payloads :: "event list \<Rightarrow> json list" where
  "payloads tr = map (\<lambda>(pod, t, j). j) (patch_calls tr)"

subsection \<open>The watcher\<close>

text \<open>
  The worlds the loop polls in, if it keeps polling: \<open>poll_world e sel n w\<close> is the world
  at the top of iteration \<open>n\<close> of a run started in \<open>w\<close> (each iteration lists and
  sleeps). A listing shows the revocation when some listed replica has an annotation map
  that maps the revocation key to \<^verbatim>\<open>"true"\<close>. An iteration stops the loop when the context
  is done or its listing shows the revocation. \<open>poll_trace\<close> is what \<open>n\<close> iterations that
  do not stop do to the world, and \<open>list_calls\<close> counts the listings of a trace.
\<close>

definition next_poll :: "'w env \<Rightarrow> selector \<Rightarrow> 'w \<Rightarrow> 'w" where
  "next_poll e sel w = time_Sleep e 300 (snd (c_List e sel w))"

primrec poll_world :: "'w env \<Rightarrow> selector \<Rightarrow> nat \<Rightarrow> 'w \<Rightarrow> 'w" where
  "poll_world e sel 0 w = w"
| "poll_world e sel (Suc n) w = poll_world e sel n (next_poll e sel w)"

definition listed_revoked :: "'w env \<Rightarrow> selector \<Rightarrow> 'w \<Rightarrow> bool" where
  "listed_revoked e sel w =
     (\<exists>items pod f. fst (c_List e sel w) = Inr items \<and> pod \<in> set items \<and>
        Annotations pod = Some f \<and> f AnnotationInMemoryVaultTokensRevoked = Some ''true'')"

definition list_failed :: "'w env \<Rightarrow> selector \<Rightarrow> 'w \<Rightarrow> bool" where
  "list_failed e sel w = (\<exists>err. fst (c_List e sel w) = Inl err)"

definition stops :: "'w env \<Rightarrow> selector \<Rightarrow> 'w \<Rightarrow> bool" where
  "stops e sel w = (ctx_Done e w \<or> listed_revoked e sel w)"

definition poll_events :: "'w env \<Rightarrow> selector \<Rightarrow> 'w \<Rightarrow> event list" where
  "poll_events e sel w =
     (case fst (c_List e sel w) of
        Inl err \<Rightarrow> [ListCall sel, LogError err ''failed to get pod list'', Sleep 300]
      | Inr items \<Rightarrow> [ListCall sel, Sleep 300])"

primrec poll_trace :: "'w env \<Rightarrow> selector \<Rightarrow> nat \<Rightarrow> 'w \<Rightarrow> event list" where
  "poll_trace e sel 0 w = []"
| "poll_trace e sel (Suc n) w = poll_events e sel w @ poll_trace e sel n (next_poll e sel w)"

fun list_calls :: "event list \<Rightarrow> nat" where
  "list_calls [] = 0"
| "list_calls (ListCall sel # evs) = Suc (list_calls evs)"
| "list_calls (ev # evs) = list_calls evs"


section \<open>Test fixtures\<close>

subsection \<open>A test cluster\<close>

text \<open>
  A client in the manner of a fake client with a patch interceptor: the world is the list
  of stored pods; listing returns the pods the selector matches; a patch of a pod named
  in \<open>broken\<close> fails with the message given there and any other patch stores the pod.
  The context is never done.
\<close>

definition operator_pod :: "string \<Rightarrow> gomap \<Rightarrow> Pod" where
  "operator_pod n a =
     \<lparr>Name = n, Namespace = ''vso'',
      Labels = Some [''control-plane'' \<mapsto> ''controller-manager''], Annotations = a\<rparr>"

definition matches :: "selector \<Rightarrow> Pod \<Rightarrow> bool" where
  "matches sel pod = (case sel of Equals k v \<Rightarrow> index_map (Labels pod) k = Some v)"

definition test_cluster :: "(string \<rightharpoonup> string) \<Rightarrow> (Pod list) env" where
  "test_cluster broken =
     \<lparr>c_List = (\<lambda>sel store. (Inr (filter (matches sel) store), store)),
      c_Patch = (\<lambda>pod t j store.
         case broken (Name pod) of
           Some msg \<Rightarrow> (Some msg, store)
         | None \<Rightarrow> (None, map (\<lambda>p. if Name p = Name pod then pod else p) store)),
      ctx_Done = (\<lambda>store. False),
      ctx_Err = (\<lambda>store. []),
      time_Sleep = (\<lambda>ms store. store)\<rparr>"

definition three_pods :: "Pod list" where
  "three_pods =
     [operator_pod ''vso-0'' (Some Map.empty),
      operator_pod ''vso-1'' (Some [''team'' \<mapsto> ''platform'']),
      operator_pod ''vso-2'' (Some Map.empty)]"

definition pods_one_bare :: "Pod list" where
  "pods_one_bare =
     [operator_pod ''vso-0'' (Some Map.empty),
      operator_pod ''vso-1'' None,
      operator_pod ''vso-2'' (Some Map.empty)]"

definition one_pod :: "Pod list" where
  "one_pod = [operator_pod ''vso-0'' (Some [''team'' \<mapsto> ''platform''])]"

subsection \<open>A scripted world\<close>

text \<open>
  A scripted world for the watcher: the world is the number of polls so far, the listing
  of each poll is given, and the context is done from the poll \<open>deadline\<close> on (never, if
  there is none).
\<close>

definition scripted :: "(nat \<Rightarrow> string + Pod list) \<Rightarrow> nat option \<Rightarrow> nat env" where
  "scripted listing deadline =
     \<lparr>c_List = (\<lambda>sel n. (listing n, n)),
      c_Patch = (\<lambda>pod t j n. (Some ''forbidden'', n)),
      ctx_Done = (\<lambda>n. case deadline of None \<Rightarrow> False | Some d \<Rightarrow> d \<le> n),
      ctx_Err = (\<lambda>n. ''context deadline exceeded''),
      time_Sleep = (\<lambda>ms n. Suc n)\<rparr>"

definition never_revoked :: "nat \<Rightarrow> string + Pod list" where
  "never_revoked n =
     (if n = 0 then Inl ''connection refused''
      else Inr [operator_pod ''vso-0'' None,
                operator_pod ''vso-1'' (Some [''team'' \<mapsto> ''platform''])])"

definition revoked_at_third :: "nat \<Rightarrow> string + Pod list" where
  "revoked_at_third n =
     (if n = 0 then Inl ''connection refused''
      else if n = 1 then Inr [operator_pod ''vso-0'' None]
      else Inr [operator_pod ''vso-0'' None,
                operator_pod ''vso-1''
                  (Some [AnnotationInMemoryVaultTokensRevoked \<mapsto> ''true''])])"

subsection \<open>The cache key tests\<close>

text \<open>
  The constants of cache_key_test.go, lines 19-24, and a stand-in digest that returns the
  tests' hash.
\<close>

definition authUID :: string where
  "authUID = ''c4fad6b9-e7bb-4ed8-bc38-67fd6dc85a35''"

definition connUID :: string where
  "connUID = ''c4fad6b9-e7bb-4ed8-bc38-67fd6dc85a36''"

definition providerUID :: string where
  "providerUID = ''c4fad6b9-e7bb-4ed8-bc38-67fd6dc85a37''"

definition computedHash :: string where
  "computedHash = ''2a8108711ae49ac0faa724''"

definition test_digest :: "hash_input \<Rightarrow> string" where
  "test_digest x = computedHash"


section \<open>Lemmas\<close>

subsection \<open>The publisher loop, characterised\<close>

lemma labels_Parse_control_plane: "labels_Parse LabelSelectorControlPlane = Inr control_plane"
  by (simp add: labels_Parse_def LabelSelectorControlPlane_def control_plane_def)

lemma assign_annotations_Some:
  "assign_annotations annotations (Some f) = Return (Some (f ++ map_of (rev annotations)))"
proof (induction annotations arbitrary: f)
  case Nil
  show ?case by simp
next
  case (Cons kv kvs)
  obtain k v where kv: "kv = (k, v)" by (cases kv)
  have "assign_annotations (kv # kvs) (Some f) = assign_annotations kvs (Some (f(k \<mapsto> v)))"
    using kv by simp
  also have "\<dots> = Return (Some (f(k \<mapsto> v) ++ map_of (rev kvs)))"
    by (rule Cons.IH)
  also have "f(k \<mapsto> v) ++ map_of (rev kvs) = f ++ map_of (rev (kv # kvs))"
    using kv by (auto simp: fun_eq_iff map_add_def map_of_append split: option.splits)
  finally show ?case .
qed

lemma assign_annotations_None:
  "annotations \<noteq> [] \<Longrightarrow> assign_annotations annotations None = Panic ''assignment to entry in nil map''"
  by (cases annotations) auto

lemma assign_annotations_pod:
  "assign_annotations annotations (Annotations pod) =
     (if assignable annotations pod then Return (Annotations (annotated annotations pod))
      else Panic ''assignment to entry in nil map'')"
  by (cases "Annotations pod")
     (auto simp: assignable_def annotated_def assign_annotations_Some assign_annotations_None)

lemma annotated_update:
  "assignable annotations pod \<Longrightarrow>
     pod\<lparr>Annotations := Annotations (annotated annotations pod)\<rparr> = annotated annotations pod"
  by (simp add: annotated_def)

lemma annotate_pods_eq:
  "annotate_pods e annotations pods errs w tr =
     (case patch_results e (map (annotated annotations) (takeWhile (assignable annotations) pods)) w of
        (rs, w') \<Rightarrow>
          (if list_all (assignable annotations) pods
           then Return (error_of (errs @ failures rs))
           else Panic ''assignment to entry in nil map'',
           w',
           tr @ map (patch_event annotations) (takeWhile (assignable annotations) pods)))"
proof (induction pods arbitrary: errs w tr)
  case Nil
  show ?case by (simp add: error_of_def failures_def)
next
  case (Cons pod pods)
  show ?case
  proof (cases "assignable annotations pod")
    case False
    then show ?thesis by (simp add: assign_annotations_pod)
  next
    case True
    obtain r w1 where p: "c_Patch e (annotated annotations pod) MergePatchType
        (payload (annotated annotations pod)) w = (r, w1)"
      by (cases "c_Patch e (annotated annotations pod) MergePatchType (payload (annotated annotations pod)) w") auto
    obtain rs w2 where rs: "patch_results e
        (map (annotated annotations) (takeWhile (assignable annotations) pods)) w1 = (rs, w2)"
      by (cases "patch_results e (map (annotated annotations) (takeWhile (assignable annotations) pods)) w1") auto
    show ?thesis
      using True p rs Cons.IH [of errs w1] Cons.IH [of "errs @ [the r]" w1]
      by (cases r)
         (simp_all add: assign_annotations_pod annotated_update json_Marshal_def payload_def [symmetric]
            patch_event_def failures_def)
  qed
qed

lemma annotateOperatorPods_listed:
  "c_List e control_plane w = (Inr items, w1) \<Longrightarrow>
     annotateOperatorPods e annotations w tr =
       annotate_pods e annotations items [] w1 (tr @ [ListCall control_plane])"
  by (simp add: annotateOperatorPods_def labels_Parse_control_plane)

lemma patch_calls_append: "patch_calls (xs @ ys) = patch_calls xs @ patch_calls ys"
  by (induction xs rule: patch_calls.induct) auto

lemma patch_calls_patch_events:
  "patch_calls (map (patch_event annotations) pods) =
     map (\<lambda>pod. (annotated annotations pod, MergePatchType, payload (annotated annotations pod))) pods"
  by (induction pods) (auto simp: patch_event_def)

lemma list_all_assignable:
  "list_all (assignable annotations) items \<longleftrightarrow>
     annotations = [] \<or> (\<forall>pod\<in>set items. Annotations pod \<noteq> None)"
  by (auto simp: list_all_iff assignable_def)

lemma annotateOperatorPods_outcome:
  assumes "c_List e control_plane w = (Inr items, w1)"
  shows "fst (annotateOperatorPods e annotations w tr) =
     (if list_all (assignable annotations) items
      then Return (error_of (failures (fst (patch_results e (map (annotated annotations) items) w1))))
      else Panic ''assignment to entry in nil map'')"
proof (cases "list_all (assignable annotations) items")
  case True
  then have all: "takeWhile (assignable annotations) items = items"
    by (simp add: list_all_iff takeWhile_eq_all_conv)
  show ?thesis
    using assms True
    by (simp add: annotateOperatorPods_listed annotate_pods_eq all split: prod.splits)
next
  case False
  then show ?thesis
    using assms
    by (simp add: annotateOperatorPods_listed annotate_pods_eq split: prod.splits)
qed

lemma annotateOperatorPods_patch_calls:
  assumes "c_List e control_plane w = (Inr items, w1)"
  shows "patch_calls (snd (snd (annotateOperatorPods e annotations w tr))) =
     patch_calls tr @
     map (\<lambda>pod. (annotated annotations pod, MergePatchType, payload (annotated annotations pod)))
       (takeWhile (assignable annotations) items)"
  using assms
  by (simp add: annotateOperatorPods_listed annotate_pods_eq patch_calls_append
      patch_calls_patch_events split: prod.splits)

lemma omitempty_string_apply:
  "omitempty_string k s k' = (if k' = k \<and> s \<noteq> [] then Some (JString s) else None)"
  by (simp add: omitempty_string_def)

lemma omitempty_map_apply:
  "omitempty_map k m k' =
     (case m of
        None \<Rightarrow> None
      | Some f \<Rightarrow> if k' = k \<and> f \<noteq> Map.empty then Some (json_of_map f) else None)"
  by (simp add: omitempty_map_def split: option.splits)

lemma json_path_of_map: "json_path (json_of_map f) [k] = map_option JString (f k)"
  by (cases "f k") (simp_all add: json_of_map_def)

lemma json_path_payload:
  "json_path (payload pod) (''metadata'' # ks) = json_path (json_ObjectMeta pod) ks"
  by (simp add: payload_def)

lemma ObjectMeta_annotations:
  "json_path (json_ObjectMeta pod) [''annotations'', k] =
     (case Annotations pod of None \<Rightarrow> None | Some f \<Rightarrow> map_option JString (f k))"
proof (cases "Annotations pod")
  case None
  then show ?thesis
    by (simp add: json_ObjectMeta_def map_add_def omitempty_string_apply omitempty_map_apply
        split: option.splits)
next
  case (Some f)
  show ?thesis
  proof (cases "f = Map.empty")
    case True
    with Some show ?thesis
      by (simp add: json_ObjectMeta_def map_add_def omitempty_string_apply omitempty_map_apply
          split: option.splits)
  next
    case False
    with Some show ?thesis
      using json_path_of_map [of f k]
      by (simp add: json_ObjectMeta_def map_add_def omitempty_string_apply omitempty_map_apply)
  qed
qed

lemma ObjectMeta_labels:
  "json_path (json_ObjectMeta pod) [''labels'', k] =
     (case Labels pod of None \<Rightarrow> None | Some f \<Rightarrow> map_option JString (f k))"
proof (cases "Labels pod")
  case None
  then show ?thesis
    by (simp add: json_ObjectMeta_def map_add_def omitempty_string_apply omitempty_map_apply
        split: option.splits)
next
  case (Some f)
  show ?thesis
  proof (cases "f = Map.empty")
    case True
    with Some show ?thesis
      by (simp add: json_ObjectMeta_def map_add_def omitempty_string_apply omitempty_map_apply
          split: option.splits)
  next
    case False
    with Some show ?thesis
      using json_path_of_map [of f k]
      by (simp add: json_ObjectMeta_def map_add_def omitempty_string_apply omitempty_map_apply
          split: option.splits)
  qed
qed

lemma ObjectMeta_name:
  "json_path (json_ObjectMeta pod) [''name''] =
     (if Name pod = [] then None else Some (JString (Name pod)))"
  by (simp add: json_ObjectMeta_def map_add_def omitempty_string_apply omitempty_map_apply
      split: option.splits)

lemma ObjectMeta_namespace:
  "json_path (json_ObjectMeta pod) [''namespace''] =
     (if Namespace pod = [] then None else Some (JString (Namespace pod)))"
  by (simp add: json_ObjectMeta_def map_add_def omitempty_string_apply omitempty_map_apply
      split: option.splits)

lemma payload_annotations:
  "Annotations pod = Some f \<Longrightarrow>
     json_path (payload (annotated annotations pod)) [''metadata'', ''annotations'', k] =
       map_option JString ((f ++ map_of (rev annotations)) k)"
  by (simp add: json_path_payload ObjectMeta_annotations annotated_def)

lemma payload_name:
  "json_path (payload (annotated annotations pod)) [''metadata'', ''name''] =
     (if Name pod = [] then None else Some (JString (Name pod)))"
  by (simp add: json_path_payload ObjectMeta_name annotated_def)

lemma payload_namespace:
  "json_path (payload (annotated annotations pod)) [''metadata'', ''namespace''] =
     (if Namespace pod = [] then None else Some (JString (Namespace pod)))"
  by (simp add: json_path_payload ObjectMeta_namespace annotated_def)

lemma payload_labels:
  "Labels pod = Some l \<Longrightarrow>
     json_path (payload (annotated annotations pod)) [''metadata'', ''labels'', k] =
       map_option JString (l k)"
  by (simp add: json_path_payload ObjectMeta_labels annotated_def)

lemma test_cluster_list:
  "c_List (test_cluster broken) control_plane pods_one_bare = (Inr pods_one_bare, pods_one_bare)"
  by (simp add: test_cluster_def control_plane_def pods_one_bare_def operator_pod_def matches_def
      index_map_def)

lemma test_cluster_list_one:
  "c_List (test_cluster broken) control_plane one_pod = (Inr one_pod, one_pod)"
  by (simp add: test_cluster_def control_plane_def one_pod_def operator_pod_def matches_def
      index_map_def)

lemma one_pod_payloads:
  "payloads (snd (snd (AnnotateInMemoryVaultTokensRevoked (test_cluster Map.empty) one_pod []))) =
     [payload (annotated [(AnnotationInMemoryVaultTokensRevoked, StringTrue)]
        (operator_pod ''vso-0'' (Some [''team'' \<mapsto> ''platform''])))]"
  by (simp add: payloads_def AnnotateInMemoryVaultTokensRevoked_def
      annotateOperatorPods_patch_calls [OF test_cluster_list_one])
     (simp add: one_pod_def assignable_def operator_pod_def)

lemma test_cluster_list_three:
  "c_List (test_cluster broken) control_plane three_pods = (Inr three_pods, three_pods)"
  by (simp add: test_cluster_def control_plane_def three_pods_def operator_pod_def matches_def
      index_map_def)

lemma fmt_disk_full:
  "fmt_Errorf ''node disk is 100% full'' = ''node disk is 100%!f(MISSING)ull''"
  by (simp add: fmt_Errorf_def directive_def argNumber_def read_width_def read_precision_def
      read_verb_def decode_verb_def utf8_size_def between_def is_flag_def parsenum_def is_digit_def)

lemma not_sublist_disk_full:
  "\<not> sublist ''node disk is 100% full'' ''node disk is 100%!f(MISSING)ull''"
  by code_simp

lemma fmt_noargs_verbatim: "CHR ''%'' \<notin> set s \<Longrightarrow> fmt_noargs s = s"
  by (induction s) auto

lemma strings_Join_contains: "m \<in> set errs \<Longrightarrow> sublist m (strings_Join errs sep)"
proof (induction errs sep rule: strings_Join.induct)
  case (1 sep)
  then show ?case by simp
next
  case (2 x sep)
  then show ?case by simp
next
  case (3 x y xs sep)
  show ?case
  proof (cases "m = x")
    case True
    then show ?thesis by (simp add: sublist_append_rightI)
  next
    case False
    with 3 have "sublist m (strings_Join (y # xs) sep)" by simp
    moreover have "sublist (strings_Join (y # xs) sep) ((x @ sep) @ strings_Join (y # xs) sep)"
      by (rule sublist_append_leftI)
    ultimately have "sublist m ((x @ sep) @ strings_Join (y # xs) sep)"
      by (rule sublist_order.order.trans)
    then show ?thesis by simp
  qed
qed

text \<open>
  What holds of every call whose listing succeeds and whose listed replicas all have an
  annotation map: every replica is patched, in order and whatever the earlier patches
  returned; the call returns, and it returns nil exactly when no patch failed; and the
  returned message is the failure messages joined by commas as long as none of them
  contains a percent sign.
\<close>

lemma failures_Nil_iff: "failures rs = [] \<longleftrightarrow> (\<forall>r\<in>set rs. r = None)"
  by (induction rs) (auto simp: failures_def split: option.splits)

lemma set_failures: "set (failures rs) = {m. Some m \<in> set rs}"
  by (induction rs) (auto simp: failures_def split: option.splits)

lemma strings_Join_no_percent:
  "\<forall>m\<in>set ms. CHR ''%'' \<notin> set m \<Longrightarrow> CHR ''%'' \<notin> set (strings_Join ms '','')"
  by (induction ms "'',''" rule: strings_Join.induct) auto

lemma error_of_verbatim:
  "\<forall>m\<in>set errs. CHR ''%'' \<notin> set m \<Longrightarrow>
     error_of errs = (if errs = [] then None else Some (strings_Join errs '',''))"
  by (simp add: error_of_def fmt_Errorf_def fmt_noargs_verbatim strings_Join_no_percent)

lemma publisher_attempts_every_pod:
  assumes "c_List e control_plane w = (Inr items, w1)"
      and "\<forall>pod\<in>set items. Annotations pod \<noteq> None"
  shows "patch_calls (snd (snd (annotateOperatorPods e annotations w tr))) =
           patch_calls tr @
           map (\<lambda>pod. (annotated annotations pod, MergePatchType,
                       payload (annotated annotations pod))) items"
    and "fst (annotateOperatorPods e annotations w tr) =
           Return (error_of (failures (fst (patch_results e (map (annotated annotations) items) w1))))"
    and "fst (annotateOperatorPods e annotations w tr) = Return None \<longleftrightarrow>
           (\<forall>r\<in>set (fst (patch_results e (map (annotated annotations) items) w1)). r = None)"
proof -
  from assms(2) have all: "list_all (assignable annotations) items"
    by (simp add: list_all_assignable)
  then have tw: "takeWhile (assignable annotations) items = items"
    by (simp add: list_all_iff takeWhile_eq_all_conv)
  show "patch_calls (snd (snd (annotateOperatorPods e annotations w tr))) =
           patch_calls tr @
           map (\<lambda>pod. (annotated annotations pod, MergePatchType,
                       payload (annotated annotations pod))) items"
    by (simp add: annotateOperatorPods_patch_calls [OF assms(1)] tw)
  show r: "fst (annotateOperatorPods e annotations w tr) =
           Return (error_of (failures (fst (patch_results e (map (annotated annotations) items) w1))))"
    using all by (simp add: annotateOperatorPods_outcome [OF assms(1)])
  show "fst (annotateOperatorPods e annotations w tr) = Return None \<longleftrightarrow>
           (\<forall>r\<in>set (fst (patch_results e (map (annotated annotations) items) w1)). r = None)"
    by (simp add: r error_of_def failures_Nil_iff)
qed

lemma test_cluster_second_fails:
  "fst (AnnotateInMemoryVaultTokensRevoked
         (test_cluster [''vso-1'' \<mapsto> ''patch of vso-1 timed out'']) three_pods []) =
     Return (Some ''patch of vso-1 timed out'')"
proof -
  let ?e = "test_cluster [''vso-1'' \<mapsto> ''patch of vso-1 timed out'']"
  let ?a = "[(AnnotationInMemoryVaultTokensRevoked, StringTrue)]"
  have all: "list_all (assignable ?a) three_pods"
    by (simp add: three_pods_def assignable_def operator_pod_def)
  have res: "fst (patch_results ?e (map (annotated ?a) three_pods) three_pods) =
      [None, Some ''patch of vso-1 timed out'', None]"
    by (simp add: three_pods_def test_cluster_def annotated_def operator_pod_def)
  show ?thesis
    using all res
    by (simp add: AnnotateInMemoryVaultTokensRevoked_def
        annotateOperatorPods_outcome [OF test_cluster_list_three] error_of_verbatim failures_def)
qed


subsection \<open>The watcher loop, characterised\<close>

lemma tokens_revoked_iff:
  "tokens_revoked pod \<longleftrightarrow>
     (\<exists>f. Annotations pod = Some f \<and> f AnnotationInMemoryVaultTokensRevoked = Some ''true'')"
  by (auto simp: tokens_revoked_def index_map_def StringTrue_def split: option.splits)

lemma listed_revoked_iff:
  "listed_revoked e sel w \<longleftrightarrow>
     (case fst (c_List e sel w) of Inl err \<Rightarrow> False | Inr items \<Rightarrow> list_ex tokens_revoked items)"
  by (auto simp: listed_revoked_def list_ex_iff tokens_revoked_iff split: sum.splits)

lemma await_loop_cancelled:
  "ctx_Done e w \<Longrightarrow>
     await_loop e sel w tr =
       Some (Cancelled, w,
             tr @ [LogError (ctx_Err e w) ''failed to await in-memory vault tokens revoked''])"
  by (subst await_loop.simps) simp

lemma await_loop_revoked:
  "\<not> ctx_Done e w \<Longrightarrow> listed_revoked e sel w \<Longrightarrow>
     await_loop e sel w tr =
       Some (Revoked, snd (c_List e sel w),
             tr @ [ListCall sel, LogInfo ''Operator pods annotations updated''])"
  by (subst await_loop.simps) (auto simp: listed_revoked_iff split: prod.splits sum.splits)

lemma await_loop_step:
  "\<not> stops e sel w \<Longrightarrow>
     await_loop e sel w tr = await_loop e sel (next_poll e sel w) (tr @ poll_events e sel w)"
  by (subst await_loop.simps)
     (auto simp: stops_def listed_revoked_iff next_poll_def poll_events_def
        split: prod.splits sum.splits)

lemma await_loop_iterate:
  "\<forall>i<n. \<not> stops e sel (poll_world e sel i w) \<Longrightarrow>
     await_loop e sel w tr =
       await_loop e sel (poll_world e sel n w) (tr @ poll_trace e sel n w)"
proof (induction n arbitrary: w tr)
  case 0
  show ?case by simp
next
  case (Suc n)
  from Suc.prems have now: "\<not> stops e sel w" by fastforce
  from Suc.prems have later: "\<forall>i<n. \<not> stops e sel (poll_world e sel i (next_poll e sel w))"
    by fastforce
  show ?case
    using await_loop_step [OF now, of tr] Suc.IH [OF later, of "tr @ poll_events e sel w"]
    by simp
qed

lemma await_loop_Some_stops:
  fixes e :: "'w env"
  assumes "await_loop e sel w tr = Some y"
  shows "\<exists>n. stops e sel (poll_world e sel n w)"
proof (rule await_loop.raw_induct
    [where P = "\<lambda>e sel w tr y. \<exists>n. stops e sel (poll_world e sel n w)", OF _ assms])
  fix f :: "'w env \<Rightarrow> selector \<Rightarrow> 'w \<Rightarrow> event list \<Rightarrow> (exit \<times> 'w \<times> event list) option"
  fix e sel w tr y
  assume IH: "\<And>e sel w tr y. f e sel w tr = Some y \<Longrightarrow> \<exists>n. stops e sel (poll_world e sel n w)"
  assume body: "(if ctx_Done e w
      then Some (Cancelled, w,
                 tr @ [LogError (ctx_Err e w) ''failed to await in-memory vault tokens revoked''])
      else (case c_List e sel w of
              (Inl err, w') \<Rightarrow>
                f e sel (time_Sleep e 300 w')
                  (tr @ [ListCall sel, LogError err ''failed to get pod list'', Sleep 300])
            | (Inr items, w') \<Rightarrow>
                if list_ex tokens_revoked items
                then Some (Revoked, w',
                           tr @ [ListCall sel, LogInfo ''Operator pods annotations updated''])
                else f e sel (time_Sleep e 300 w') (tr @ [ListCall sel, Sleep 300]))) = Some y"
  show "\<exists>n. stops e sel (poll_world e sel n w)"
  proof (cases "stops e sel w")
    case True
    then have "stops e sel (poll_world e sel 0 w)" by simp
    then show ?thesis by blast
  next
    case False
    with body have "f e sel (next_poll e sel w) (tr @ poll_events e sel w) = Some y"
      by (auto simp: stops_def listed_revoked_iff next_poll_def poll_events_def
          split: prod.splits sum.splits if_splits)
    from IH [OF this] obtain n where "stops e sel (poll_world e sel n (next_poll e sel w))"
      by blast
    then have "stops e sel (poll_world e sel (Suc n) w)" by simp
    then show ?thesis by blast
  qed
qed

lemma await_loop_forever:
  "\<forall>n. \<not> stops e sel (poll_world e sel n w) \<Longrightarrow> await_loop e sel w tr = None"
  using await_loop_Some_stops [of e sel w tr] by (cases "await_loop e sel w tr") auto

lemma await_loop_first_stop:
  assumes "stops e sel (poll_world e sel n w)"
      and "\<forall>i<n. \<not> stops e sel (poll_world e sel i w)"
  shows "await_loop e sel w tr =
     (if ctx_Done e (poll_world e sel n w)
      then Some (Cancelled, poll_world e sel n w,
                 tr @ poll_trace e sel n w @
                 [LogError (ctx_Err e (poll_world e sel n w))
                    ''failed to await in-memory vault tokens revoked''])
      else Some (Revoked, snd (c_List e sel (poll_world e sel n w)),
                 tr @ poll_trace e sel n w @
                 [ListCall sel, LogInfo ''Operator pods annotations updated'']))"
  using assms(1) await_loop_iterate [OF assms(2), of tr]
  by (auto simp: stops_def await_loop_cancelled await_loop_revoked)

lemma patch_calls_poll_events: "patch_calls (poll_events e sel w) = []"
  by (simp add: poll_events_def split: sum.splits)

lemma patch_calls_poll_trace: "patch_calls (poll_trace e sel n w) = []"
  by (induction n arbitrary: w) (simp_all add: patch_calls_append patch_calls_poll_events)

lemma list_calls_append: "list_calls (xs @ ys) = list_calls xs + list_calls ys"
  by (induction xs rule: list_calls.induct) auto

lemma list_calls_poll_events: "list_calls (poll_events e sel w) = 1"
  by (simp add: poll_events_def split: sum.splits)

lemma list_calls_poll_trace: "list_calls (poll_trace e sel n w) = n"
  by (induction n arbitrary: w) (simp_all add: list_calls_append list_calls_poll_events)

lemma Await_eq:
  "AwaitInMemoryVaultTokensRevoked e w tr = await_loop e control_plane w tr"
  by (simp add: AwaitInMemoryVaultTokensRevoked_def labels_Parse_control_plane)

lemma first_stop:
  assumes "stops e sel (poll_world e sel m w)"
  obtains n where "stops e sel (poll_world e sel n w)"
    and "\<forall>i<n. \<not> stops e sel (poll_world e sel i w)"
proof -
  let ?n = "LEAST n. stops e sel (poll_world e sel n w)"
  have "stops e sel (poll_world e sel ?n w)" using assms by (rule LeastI)
  moreover have "\<forall>i<?n. \<not> stops e sel (poll_world e sel i w)"
    using not_less_Least by blast
  ultimately show ?thesis using that by blast
qed

lemma scripted_next_poll: "next_poll (scripted listing deadline) sel w = Suc w"
  by (simp add: next_poll_def scripted_def)

lemma scripted_poll_world: "poll_world (scripted listing deadline) sel n w = w + n"
  by (induction n arbitrary: w) (simp_all add: scripted_next_poll)

lemma never_revoked_listed:
  "\<not> listed_revoked (scripted never_revoked deadline) sel w"
  by (auto simp: listed_revoked_def scripted_def never_revoked_def operator_pod_def
      AnnotationInMemoryVaultTokensRevoked_def split: if_splits)

lemma revoked_at_third_listed:
  "listed_revoked (scripted revoked_at_third deadline) sel w \<longleftrightarrow> 2 \<le> w"
proof
  assume "listed_revoked (scripted revoked_at_third deadline) sel w"
  then show "2 \<le> w"
    by (auto simp: listed_revoked_def scripted_def revoked_at_third_def operator_pod_def
        split: if_splits)
next
  assume w: "2 \<le> w"
  let ?pod = "operator_pod ''vso-1'' (Some [AnnotationInMemoryVaultTokensRevoked \<mapsto> ''true''])"
  from w have "fst (c_List (scripted revoked_at_third deadline) sel w) =
      Inr [operator_pod ''vso-0'' None, ?pod]"
    by (simp add: scripted_def revoked_at_third_def)
  moreover have "?pod \<in> set [operator_pod ''vso-0'' None, ?pod]" by simp
  moreover have "Annotations ?pod = Some [AnnotationInMemoryVaultTokensRevoked \<mapsto> ''true'']"
    by (simp add: operator_pod_def)
  moreover have "[AnnotationInMemoryVaultTokensRevoked \<mapsto> ''true'']
      AnnotationInMemoryVaultTokensRevoked = Some ''true''"
    by simp
  ultimately show "listed_revoked (scripted revoked_at_third deadline) sel w"
    unfolding listed_revoked_def by blast
qed


subsection \<open>The publisher and the watcher together\<close>

text \<open>
  On the test cluster with three replicas and no failing patch, the publisher returns nil,
  and a watcher started on the store it leaves returns at line 51.
\<close>

lemma publish_then_await:
  "fst (AnnotateInMemoryVaultTokensRevoked (test_cluster Map.empty) three_pods []) = Return None
   \<and> (\<exists>w' tr'. AwaitInMemoryVaultTokensRevoked (test_cluster Map.empty)
         (fst (snd (AnnotateInMemoryVaultTokensRevoked (test_cluster Map.empty) three_pods []))) [] =
         Some (Revoked, w', tr'))"
proof -
  let ?e = "test_cluster Map.empty"
  let ?a = "[(AnnotationInMemoryVaultTokensRevoked, StringTrue)]"
  let ?run = "AnnotateInMemoryVaultTokensRevoked ?e three_pods []"
  have all: "list_all (assignable ?a) three_pods"
    by (simp add: three_pods_def assignable_def operator_pod_def)
  have tw: "takeWhile (assignable ?a) three_pods = three_pods"
    using all by (simp add: list_all_iff takeWhile_eq_all_conv)
  have res: "patch_results ?e (map (annotated ?a) three_pods) three_pods =
      ([None, None, None], map (annotated ?a) three_pods)"
    by (simp add: three_pods_def test_cluster_def annotated_def operator_pod_def)
  have 1: "fst ?run = Return None"
    using all res
    by (simp add: AnnotateInMemoryVaultTokensRevoked_def
        annotateOperatorPods_outcome [OF test_cluster_list_three] error_of_def failures_def)
  have 2: "fst (snd ?run) = map (annotated ?a) three_pods"
    using res
    by (simp add: AnnotateInMemoryVaultTokensRevoked_def annotateOperatorPods_listed
        [OF test_cluster_list_three] annotate_pods_eq tw)
  have live: "\<not> ctx_Done ?e (map (annotated ?a) three_pods)"
    by (simp add: test_cluster_def)
  have "tokens_revoked (annotated ?a (operator_pod ''vso-0'' (Some Map.empty)))"
    by (simp add: tokens_revoked_def annotated_def operator_pod_def index_map_def)
  then have "listed_revoked ?e control_plane (map (annotated ?a) three_pods)"
    by (simp add: listed_revoked_iff test_cluster_def three_pods_def control_plane_def
        matches_def annotated_def operator_pod_def index_map_def)
  from await_loop_revoked [OF live this]
  have "\<exists>w' tr'. AwaitInMemoryVaultTokensRevoked ?e (map (annotated ?a) three_pods) [] =
      Some (Revoked, w', tr')"
    by (simp add: Await_eq)
  with 1 2 show ?thesis by simp
qed


section \<open>Claims about the annotation publisher\<close>

text \<open>
  C1, evaluated where the code and the claim part. Three replicas are listed and the
  patch of the second fails with the message \<^verbatim>\<open>node disk is 100% full\<close>. All three patches
  are attempted and an error is returned, but line 116 hands the joined messages to
  \<^verbatim>\<open>fmt.Errorf\<close> as the format string: the text \<^verbatim>\<open>% f\<close> is read as a directive with no
  operand, and the returned message no longer contains the failure message.
\<close>

theorem percent_in_failure_message:
  "fst (AnnotateInMemoryVaultTokensRevoked
         (test_cluster [''vso-1'' \<mapsto> ''node disk is 100% full'']) three_pods []) =
     Return (Some ''node disk is 100%!f(MISSING)ull'')
   \<and> map (\<lambda>(pod, t, j). Name pod)
         (patch_calls (snd (snd (AnnotateInMemoryVaultTokensRevoked
            (test_cluster [''vso-1'' \<mapsto> ''node disk is 100% full'']) three_pods [])))) =
       [''vso-0'', ''vso-1'', ''vso-2'']
   \<and> \<not> sublist ''node disk is 100% full'' ''node disk is 100%!f(MISSING)ull''"
proof -
  let ?e = "test_cluster [''vso-1'' \<mapsto> ''node disk is 100% full'']"
  let ?a = "[(AnnotationInMemoryVaultTokensRevoked, StringTrue)]"
  have all: "list_all (assignable ?a) three_pods"
    by (simp add: three_pods_def assignable_def operator_pod_def)
  have res: "fst (patch_results ?e (map (annotated ?a) three_pods) three_pods) =
      [None, Some ''node disk is 100% full'', None]"
    by (simp add: three_pods_def test_cluster_def annotated_def operator_pod_def)
  have 1: "fst (AnnotateInMemoryVaultTokensRevoked ?e three_pods []) =
      Return (Some ''node disk is 100%!f(MISSING)ull'')"
    using all res
    by (simp add: AnnotateInMemoryVaultTokensRevoked_def
        annotateOperatorPods_outcome [OF test_cluster_list_three] error_of_def failures_def
        fmt_disk_full)
  have tw: "takeWhile (assignable ?a) three_pods = three_pods"
    using all by (simp add: list_all_iff takeWhile_eq_all_conv)
  have 2: "map (\<lambda>(pod, t, j). Name pod)
         (patch_calls (snd (snd (AnnotateInMemoryVaultTokensRevoked ?e three_pods [])))) =
       [''vso-0'', ''vso-1'', ''vso-2'']"
    by (simp add: AnnotateInMemoryVaultTokensRevoked_def
        annotateOperatorPods_patch_calls [OF test_cluster_list_three] tw)
       (simp add: three_pods_def annotated_def operator_pod_def)
  from 1 2 not_sublist_disk_full show ?thesis by blast
qed

text \<open>
  C2, as the claim states it, is refuted: with one listed replica named \<^verbatim>\<open>vso-0\<close> that
  already carries the annotation \<^verbatim>\<open>team\<close>, the one payload sent is not the patch of the
  supplied key alone (it has, among others, the member \<^verbatim>\<open>metadata.name\<close>).
\<close>

theorem patch_payload_counterexample:
  "length (payloads (snd (snd (AnnotateInMemoryVaultTokensRevoked (test_cluster Map.empty) one_pod [])))) = 1
   \<and> json_path (payloads (snd (snd (AnnotateInMemoryVaultTokensRevoked
          (test_cluster Map.empty) one_pod []))) ! 0) [''metadata'', ''name''] =
       Some (JString ''vso-0'')
   \<and> json_path (payloads (snd (snd (AnnotateInMemoryVaultTokensRevoked
          (test_cluster Map.empty) one_pod []))) ! 0) [''metadata'', ''annotations'', ''team''] =
       Some (JString ''platform'')
   \<and> \<not> only_changed_keys [(AnnotationInMemoryVaultTokensRevoked, StringTrue)]
         (payloads (snd (snd (AnnotateInMemoryVaultTokensRevoked (test_cluster Map.empty) one_pod []))) ! 0)"
proof -
  let ?pod = "operator_pod ''vso-0'' (Some [''team'' \<mapsto> ''platform''])"
  let ?p = "payload (annotated [(AnnotationInMemoryVaultTokensRevoked, StringTrue)] ?pod)"
  have name: "json_path ?p [''metadata'', ''name''] = Some (JString ''vso-0'')"
    by (simp add: payload_name operator_pod_def)
  have "Annotations ?pod = Some [''team'' \<mapsto> ''platform'']"
    by (simp add: operator_pod_def)
  then have team: "json_path ?p [''metadata'', ''annotations'', ''team''] = Some (JString ''platform'')"
    by (simp add: payload_annotations AnnotationInMemoryVaultTokensRevoked_def)
  have "json_path (JObject [''metadata'' \<mapsto> JObject [''annotations'' \<mapsto>
      json_of_map (map_of [(AnnotationInMemoryVaultTokensRevoked, StringTrue)])]])
      [''metadata'', ''name''] = None"
    by simp
  with name have "\<not> only_changed_keys [(AnnotationInMemoryVaultTokensRevoked, StringTrue)] ?p"
    unfolding only_changed_keys_def by (metis option.distinct(1))
  with name team show ?thesis by (simp add: one_pod_payloads)
qed

text \<open>
  C2, amended. The patches sent are those of the listed replicas, in order, up to the
  first that cannot be assigned to (all of them when every replica has an annotation
  map). Each is a merge patch whose payload is the whole descriptor as marshalled after
  the merge: its annotations are the descriptor's own with the supplied ones laid over
  them, and its name, namespace and labels are the descriptor's.
\<close>

theorem patch_payload_is_whole_pod:
  assumes "c_List e control_plane w = (Inr items, w1)"
  shows "patch_calls (snd (snd (annotateOperatorPods e annotations w tr))) =
           patch_calls tr @
           map (\<lambda>pod. (annotated annotations pod, MergePatchType,
                       payload (annotated annotations pod)))
             (takeWhile (assignable annotations) items)
       \<and> (\<forall>pod f k. Annotations pod = Some f \<longrightarrow>
             json_path (payload (annotated annotations pod)) [''metadata'', ''annotations'', k] =
               (case map_of (rev annotations) k of
                  Some v \<Rightarrow> Some (JString v)
                | None \<Rightarrow> map_option JString (f k)))
       \<and> (\<forall>pod. json_path (payload (annotated annotations pod)) [''metadata'', ''name''] =
             (if Name pod = [] then None else Some (JString (Name pod))))
       \<and> (\<forall>pod. json_path (payload (annotated annotations pod)) [''metadata'', ''namespace''] =
             (if Namespace pod = [] then None else Some (JString (Namespace pod))))
       \<and> (\<forall>pod l k. Labels pod = Some l \<longrightarrow>
             json_path (payload (annotated annotations pod)) [''metadata'', ''labels'', k] =
               map_option JString (l k))"
proof -
  have "patch_calls (snd (snd (annotateOperatorPods e annotations w tr))) =
           patch_calls tr @
           map (\<lambda>pod. (annotated annotations pod, MergePatchType,
                       payload (annotated annotations pod)))
             (takeWhile (assignable annotations) items)"
    by (rule annotateOperatorPods_patch_calls [OF assms])
  moreover have "\<forall>pod f k. Annotations pod = Some f \<longrightarrow>
             json_path (payload (annotated annotations pod)) [''metadata'', ''annotations'', k] =
               (case map_of (rev annotations) k of
                  Some v \<Rightarrow> Some (JString v)
                | None \<Rightarrow> map_option JString (f k))"
    by (simp add: payload_annotations map_add_def split: option.splits)
  ultimately show ?thesis
    by (simp add: payload_name payload_namespace payload_labels)
qed

theorem patch_payload_is_whole_pod_witness:
  "map (\<lambda>(pod, t, j). (Name pod, t))
      (patch_calls (snd (snd (annotateOperatorPods (test_cluster Map.empty)
          [(AnnotationInMemoryVaultTokensRevoked, StringTrue)] one_pod [])))) =
     [(''vso-0'', MergePatchType)]
   \<and> json_path (payload (annotated [(AnnotationInMemoryVaultTokensRevoked, StringTrue)]
        (operator_pod ''vso-0'' (Some [''team'' \<mapsto> ''platform''])))) [''metadata'', ''annotations'', ''team'']
       = Some (JString ''platform'')
   \<and> json_path (payload (annotated [(AnnotationInMemoryVaultTokensRevoked, StringTrue)]
        (operator_pod ''vso-0'' (Some [''team'' \<mapsto> ''platform''])))) [''metadata'', ''annotations'',
          AnnotationInMemoryVaultTokensRevoked]
       = Some (JString ''true'')
   \<and> json_path (payload (annotated [(AnnotationInMemoryVaultTokensRevoked, StringTrue)]
        (operator_pod ''vso-0'' (Some [''team'' \<mapsto> ''platform''])))) [''metadata'', ''name'']
       = Some (JString ''vso-0'')"
proof -
  note t = patch_payload_is_whole_pod [OF test_cluster_list_one,
      where annotations = "[(AnnotationInMemoryVaultTokensRevoked, StringTrue)]" and tr = "[]"]
  let ?pod = "operator_pod ''vso-0'' (Some [''team'' \<mapsto> ''platform''])"
  have a: "Annotations ?pod = Some [''team'' \<mapsto> ''platform'']"
    by (simp add: operator_pod_def)
  from t have "patch_calls (snd (snd (annotateOperatorPods (test_cluster Map.empty)
          [(AnnotationInMemoryVaultTokensRevoked, StringTrue)] one_pod []))) =
        patch_calls [] @
        map (\<lambda>pod. (annotated [(AnnotationInMemoryVaultTokensRevoked, StringTrue)] pod,
                    MergePatchType,
                    payload (annotated [(AnnotationInMemoryVaultTokensRevoked, StringTrue)] pod)))
          (takeWhile (assignable [(AnnotationInMemoryVaultTokensRevoked, StringTrue)]) one_pod)"
    by blast
  then have 1: "map (\<lambda>(pod, t, j). (Name pod, t))
      (patch_calls (snd (snd (annotateOperatorPods (test_cluster Map.empty)
          [(AnnotationInMemoryVaultTokensRevoked, StringTrue)] one_pod [])))) =
     [(''vso-0'', MergePatchType)]"
    by (simp add: one_pod_def assignable_def operator_pod_def annotated_def)
  from t have 2: "\<forall>pod f k. Annotations pod = Some f \<longrightarrow>
       json_path (payload (annotated [(AnnotationInMemoryVaultTokensRevoked, StringTrue)] pod))
         [''metadata'', ''annotations'', k] =
       (case map_of (rev [(AnnotationInMemoryVaultTokensRevoked, StringTrue)]) k of
          Some v \<Rightarrow> Some (JString v)
        | None \<Rightarrow> map_option JString (f k))"
    by blast
  from t have 3: "\<forall>pod. json_path (payload (annotated
         [(AnnotationInMemoryVaultTokensRevoked, StringTrue)] pod)) [''metadata'', ''name''] =
       (if Name pod = [] then None else Some (JString (Name pod)))"
    by blast
  have 4: "json_path (payload (annotated [(AnnotationInMemoryVaultTokensRevoked, StringTrue)] ?pod))
      [''metadata'', ''annotations'', ''team''] = Some (JString ''platform'')"
    using 2 [rule_format, OF a, of "''team''"]
    by (simp add: AnnotationInMemoryVaultTokensRevoked_def)
  have 5: "json_path (payload (annotated [(AnnotationInMemoryVaultTokensRevoked, StringTrue)] ?pod))
      [''metadata'', ''annotations'', AnnotationInMemoryVaultTokensRevoked] = Some (JString ''true'')"
    using 2 [rule_format, OF a, of AnnotationInMemoryVaultTokensRevoked]
    by (simp add: StringTrue_def)
  have 6: "json_path (payload (annotated [(AnnotationInMemoryVaultTokensRevoked, StringTrue)] ?pod))
      [''metadata'', ''name''] = Some (JString ''vso-0'')"
    using 3 [rule_format, of ?pod] by (simp add: operator_pod_def)
  from 1 4 5 6 show ?thesis by blast
qed

text \<open>
  C10. When the listing succeeds and at least one annotation is supplied, the call
  panics with Go's "assignment to entry in nil map" exactly when some listed replica has
  a nil annotation map, and it returns (an error or nil) when every listed replica has an
  annotation map. Both exported callers supply one annotation, so for them the panic
  depends on the listed replicas alone.
\<close>

theorem nil_annotation_map_panics:
  assumes "c_List e control_plane w = (Inr items, w1)"
  shows "(annotations \<noteq> [] \<longrightarrow>
            ((\<exists>pod\<in>set items. Annotations pod = None) \<longleftrightarrow>
             fst (annotateOperatorPods e annotations w tr) = Panic ''assignment to entry in nil map''))
       \<and> ((\<exists>pod\<in>set items. Annotations pod = None) \<longleftrightarrow>
             fst (AnnotateInMemoryVaultTokensRevoked e w tr) = Panic ''assignment to entry in nil map'')
       \<and> ((\<exists>pod\<in>set items. Annotations pod = None) \<longleftrightarrow>
             fst (AnnotatePredeleteHookStarted e w tr) = Panic ''assignment to entry in nil map'')
       \<and> ((\<forall>pod\<in>set items. Annotations pod \<noteq> None) \<longrightarrow>
             (\<exists>err. fst (annotateOperatorPods e annotations w tr) = Return err))"
  using annotateOperatorPods_outcome [OF assms]
  by (auto simp: AnnotateInMemoryVaultTokensRevoked_def AnnotatePredeleteHookStarted_def
        list_all_assignable)

theorem nil_annotation_map_panics_witness:
  "fst (AnnotateInMemoryVaultTokensRevoked (test_cluster Map.empty) pods_one_bare []) =
     Panic ''assignment to entry in nil map''
   \<and> fst (AnnotatePredeleteHookStarted (test_cluster Map.empty) pods_one_bare []) =
     Panic ''assignment to entry in nil map''"
  using nil_annotation_map_panics [OF test_cluster_list, where tr = "[]"]
  by (simp add: pods_one_bare_def operator_pod_def)


section \<open>Claims about the revocation watcher\<close>

text \<open>
  C3. For a run of \<open>AwaitInMemoryVaultTokensRevoked\<close> started in world \<open>w\<close> with trace
  \<open>tr\<close>:
  \<^item> if no listing of any poll shows the revocation, then a run that returns has
    returned at line 39 with the context done and without a patch call, and the run
    returns if and only if the context is done at some poll (otherwise it runs forever);
  \<^item> every run that returns took the return of line 39 or of line 51, never the one
    of line 32, and made no patch call: a failed listing ends nothing;
  \<^item> after any number of polls whose listing failed while the context was not done,
    the loop is at the top of its next iteration;
  \<^item> if poll \<open>n\<close> is the first whose listing shows the revocation and the context is
    not done up to it, the run returns at line 51 right after that listing, its
    \<open>n + 1\<close>-th.
\<close>

theorem await_tokens_revoked:
  fixes e :: "'w env"
  shows
  "((\<forall>n. \<not> listed_revoked e control_plane (poll_world e control_plane n w)) \<longrightarrow>
      (\<forall>x w' tr'. AwaitInMemoryVaultTokensRevoked e w tr = Some (x, w', tr') \<longrightarrow>
          x = Cancelled \<and> ctx_Done e w' \<and> patch_calls tr' = patch_calls tr)
      \<and> (AwaitInMemoryVaultTokensRevoked e w tr \<noteq> None \<longleftrightarrow>
           (\<exists>n. ctx_Done e (poll_world e control_plane n w))))
   \<and> (\<forall>x w' tr'. AwaitInMemoryVaultTokensRevoked e w tr = Some (x, w', tr') \<longrightarrow>
          (x = Cancelled \<or> x = Revoked) \<and> patch_calls tr' = patch_calls tr)
   \<and> (\<forall>n. (\<forall>i<n. \<not> ctx_Done e (poll_world e control_plane i w) \<and>
                  list_failed e control_plane (poll_world e control_plane i w)) \<longrightarrow>
          AwaitInMemoryVaultTokensRevoked e w tr =
            await_loop e control_plane (poll_world e control_plane n w)
              (tr @ poll_trace e control_plane n w))
   \<and> (\<forall>n. (\<forall>i<n. \<not> ctx_Done e (poll_world e control_plane i w) \<and>
                  \<not> listed_revoked e control_plane (poll_world e control_plane i w)) \<and>
          \<not> ctx_Done e (poll_world e control_plane n w) \<and>
          listed_revoked e control_plane (poll_world e control_plane n w) \<longrightarrow>
          (\<exists>tr'. AwaitInMemoryVaultTokensRevoked e w tr =
                   Some (Revoked, snd (c_List e control_plane (poll_world e control_plane n w)), tr')
                 \<and> list_calls tr' = list_calls tr + Suc n
                 \<and> patch_calls tr' = patch_calls tr))"
proof -
  let ?W = "poll_world e control_plane"
  let ?A = "AwaitInMemoryVaultTokensRevoked e w tr"
  have result: "(x = Cancelled \<and> ctx_Done e w' \<or> x = Revoked \<and> (\<exists>n. listed_revoked e control_plane (?W n w)))
      \<and> patch_calls tr' = patch_calls tr"
    if "?A = Some (x, w', tr')" for x w' tr'
  proof -
    from that have run: "await_loop e control_plane w tr = Some (x, w', tr')"
      by (simp add: Await_eq)
    from await_loop_Some_stops [OF run] obtain m where "stops e control_plane (?W m w)"
      by blast
    then obtain n where n: "stops e control_plane (?W n w)"
      and before: "\<forall>i<n. \<not> stops e control_plane (?W i w)"
      by (rule first_stop)
    show ?thesis
      using run n await_loop_first_stop [OF n before, of tr]
      by (auto simp: stops_def patch_calls_append patch_calls_poll_trace split: if_splits)
  qed
  have never: "(\<forall>x w' tr'. ?A = Some (x, w', tr') \<longrightarrow>
          x = Cancelled \<and> ctx_Done e w' \<and> patch_calls tr' = patch_calls tr)
      \<and> (?A \<noteq> None \<longleftrightarrow> (\<exists>n. ctx_Done e (?W n w)))"
    if nr: "\<forall>n. \<not> listed_revoked e control_plane (?W n w)"
  proof -
    have a: "\<forall>x w' tr'. ?A = Some (x, w', tr') \<longrightarrow>
          x = Cancelled \<and> ctx_Done e w' \<and> patch_calls tr' = patch_calls tr"
      using result nr by blast
    have b: "\<exists>n. ctx_Done e (?W n w)" if "?A \<noteq> None"
    proof -
      from that obtain y where y: "await_loop e control_plane w tr = Some y"
        by (auto simp: Await_eq)
      from await_loop_Some_stops [OF y] obtain m where "stops e control_plane (?W m w)"
        by blast
      with nr show ?thesis by (auto simp: stops_def)
    qed
    have c: "?A \<noteq> None" if "\<exists>n. ctx_Done e (?W n w)"
    proof -
      from that obtain m where "stops e control_plane (?W m w)" by (auto simp: stops_def)
      then obtain n where n: "stops e control_plane (?W n w)"
        and before: "\<forall>i<n. \<not> stops e control_plane (?W i w)"
        by (rule first_stop)
      show ?thesis
        using await_loop_first_stop [OF n before, of tr] by (simp add: Await_eq)
    qed
    from a b c show ?thesis by blast
  qed
  have exits: "\<forall>x w' tr'. ?A = Some (x, w', tr') \<longrightarrow>
          (x = Cancelled \<or> x = Revoked) \<and> patch_calls tr' = patch_calls tr"
    using result by blast
  have errors: "?A = await_loop e control_plane (?W n w) (tr @ poll_trace e control_plane n w)"
    if "\<forall>i<n. \<not> ctx_Done e (?W i w) \<and> list_failed e control_plane (?W i w)" for n
  proof -
    from that have "\<forall>i<n. \<not> stops e control_plane (?W i w)"
      by (auto simp: stops_def list_failed_def listed_revoked_def)
    then show ?thesis by (simp add: Await_eq await_loop_iterate)
  qed
  have success: "\<exists>tr'. ?A = Some (Revoked, snd (c_List e control_plane (?W n w)), tr')
                 \<and> list_calls tr' = list_calls tr + Suc n
                 \<and> patch_calls tr' = patch_calls tr"
    if "(\<forall>i<n. \<not> ctx_Done e (?W i w) \<and> \<not> listed_revoked e control_plane (?W i w)) \<and>
        \<not> ctx_Done e (?W n w) \<and> listed_revoked e control_plane (?W n w)" for n
  proof -
    from that have n: "stops e control_plane (?W n w)"
      and before: "\<forall>i<n. \<not> stops e control_plane (?W i w)"
      and live: "\<not> ctx_Done e (?W n w)"
      by (auto simp: stops_def)
    show ?thesis
      using await_loop_first_stop [OF n before, of tr] live
      by (simp add: Await_eq list_calls_append list_calls_poll_trace patch_calls_append
          patch_calls_poll_trace)
  qed
  from never exits errors success show ?thesis by blast
qed

theorem await_tokens_revoked_witness:
  "(\<exists>w' tr'. AwaitInMemoryVaultTokensRevoked (scripted never_revoked (Some 2)) 0 [] =
               Some (Cancelled, w', tr') \<and> patch_calls tr' = [])
   \<and> AwaitInMemoryVaultTokensRevoked (scripted never_revoked None) 0 [] = None
   \<and> AwaitInMemoryVaultTokensRevoked (scripted never_revoked (Some 2)) 0 [] =
       await_loop (scripted never_revoked (Some 2)) control_plane 1
         [ListCall control_plane, LogError ''connection refused'' ''failed to get pod list'',
          Sleep 300]
   \<and> (\<exists>tr'. AwaitInMemoryVaultTokensRevoked (scripted revoked_at_third None) 0 [] =
               Some (Revoked, 2, tr') \<and> list_calls tr' = 3)"
proof -
  let ?cancelled = "scripted never_revoked (Some 2)"
  let ?forever = "scripted never_revoked None"
  let ?revoked = "scripted revoked_at_third None"
  note c = await_tokens_revoked [of ?cancelled 0 "[]"]
  note f = await_tokens_revoked [of ?forever 0 "[]"]
  note r = await_tokens_revoked [of ?revoked 0 "[]"]
  have nr: "\<forall>n. \<not> listed_revoked (scripted never_revoked d) control_plane
      (poll_world (scripted never_revoked d) control_plane n 0)" for d
    by (simp add: never_revoked_listed)
  have fires: "\<exists>n. ctx_Done ?cancelled (poll_world ?cancelled control_plane n 0)"
    by (rule exI [of _ 2]) (simp add: scripted_poll_world, simp add: scripted_def)
  from c nr fires have "AwaitInMemoryVaultTokensRevoked ?cancelled 0 [] \<noteq> None"
    by blast
  then obtain x w' tr' where
    run: "AwaitInMemoryVaultTokensRevoked ?cancelled 0 [] = Some (x, w', tr')"
    by (cases "AwaitInMemoryVaultTokensRevoked ?cancelled 0 []") auto
  with c nr have "x = Cancelled \<and> patch_calls tr' = patch_calls []" by blast
  with run have 1: "\<exists>w' tr'. AwaitInMemoryVaultTokensRevoked ?cancelled 0 [] =
               Some (Cancelled, w', tr') \<and> patch_calls tr' = []"
    by simp
  have "\<not> (\<exists>n. ctx_Done ?forever (poll_world ?forever control_plane n 0))"
    by (simp add: scripted_def)
  with f nr have 2: "AwaitInMemoryVaultTokensRevoked ?forever 0 [] = None" by blast
  have "\<forall>i<1. \<not> ctx_Done ?cancelled (poll_world ?cancelled control_plane i 0) \<and>
      list_failed ?cancelled control_plane (poll_world ?cancelled control_plane i 0)"
    by (simp add: scripted_def list_failed_def never_revoked_def)
  with c have "AwaitInMemoryVaultTokensRevoked ?cancelled 0 [] =
      await_loop ?cancelled control_plane (poll_world ?cancelled control_plane 1 0)
        ([] @ poll_trace ?cancelled control_plane 1 0)"
    by blast
  then have 3: "AwaitInMemoryVaultTokensRevoked ?cancelled 0 [] =
       await_loop ?cancelled control_plane 1
         [ListCall control_plane, LogError ''connection refused'' ''failed to get pod list'',
          Sleep 300]"
    by (simp add: scripted_next_poll poll_events_def)
       (simp add: scripted_def never_revoked_def)
  have "(\<forall>i<2. \<not> ctx_Done ?revoked (poll_world ?revoked control_plane i 0) \<and>
          \<not> listed_revoked ?revoked control_plane (poll_world ?revoked control_plane i 0)) \<and>
        \<not> ctx_Done ?revoked (poll_world ?revoked control_plane 2 0) \<and>
        listed_revoked ?revoked control_plane (poll_world ?revoked control_plane 2 0)"
    by (simp add: scripted_poll_world revoked_at_third_listed) (simp add: scripted_def)
  with r obtain tr' where
    t: "AwaitInMemoryVaultTokensRevoked ?revoked 0 [] =
      Some (Revoked, snd (c_List ?revoked control_plane (poll_world ?revoked control_plane 2 0)), tr')"
    and l: "list_calls tr' = list_calls [] + Suc 2"
    by blast
  have pw2: "poll_world ?revoked control_plane 2 0 = 2"
    using scripted_poll_world [of revoked_at_third None control_plane 2 0] by simp
  have sn: "snd (c_List ?revoked control_plane 2) = 2"
    by (simp add: scripted_def)
  from t have "AwaitInMemoryVaultTokensRevoked ?revoked 0 [] = Some (Revoked, 2, tr')"
    by (simp only: pw2 sn)
  moreover from l have "list_calls tr' = 3" by simp
  ultimately have 4: "\<exists>tr'. AwaitInMemoryVaultTokensRevoked ?revoked 0 [] =
               Some (Revoked, 2, tr') \<and> list_calls tr' = 3"
    by blast
  from 1 2 3 4 show ?thesis by blast
qed


section \<open>Claims about the cache key\<close>

text \<open>
  C5. For valid, pairwise distinct identities, whatever the digest: a method label of
  40 characters gives the key \<open>method-hash\<close>, which is exactly as long as the maximum when
  the digest has the width of the hash; a method label of 41 characters fails with
  \<open>KeyLengthExceeded\<close> for every digest; and in general the derivation succeeds exactly up
  to 40 characters and fails with \<open>KeyLengthExceeded\<close> exactly beyond.
\<close>

theorem method_length_boundary:
  assumes "length (token a) = 36" and "length (token c) = 36"
      and "token a \<noteq> token c" and "token a \<noteq> token p" and "token c \<noteq> token p"
  shows "(length m = 40 \<longrightarrow>
            deriveKey h a c p m = Inr (m @ ''-'' @ h (canonical a c p))
            \<and> (fixed_width h \<longrightarrow> length (m @ ''-'' @ h (canonical a c p)) = MAX_TOTAL))
       \<and> (length m = 41 \<longrightarrow> (\<forall>h'. deriveKey h' a c p m = Inl KeyLengthExceeded))
       \<and> ((\<exists>k. deriveKey h a c p m = Inr k) \<longleftrightarrow> length m \<le> 40)
       \<and> (deriveKey h a c p m = Inl KeyLengthExceeded \<longleftrightarrow> 40 < length m)"
  using assms
  by (auto simp: deriveKey_def validateIdentity_def REQUIRED_WIDTH_def MAX_TOTAL_def HASH_LEN_def
      fixed_width_def canonical_def)

theorem method_length_boundary_witness:
  "deriveKey test_digest \<lparr>token = authUID, generation = 0\<rparr> \<lparr>token = connUID, generation = 0\<rparr>
      \<lparr>token = providerUID, generation = 0\<rparr> (''ical'' @ replicate 36 CHR ''x'') =
     Inr (''ical'' @ replicate 36 CHR ''x'' @ ''-'' @ computedHash)
   \<and> length (''ical'' @ replicate 36 CHR ''x'' @ ''-'' @ computedHash) = 63
   \<and> deriveKey test_digest \<lparr>token = authUID, generation = 0\<rparr> \<lparr>token = connUID, generation = 0\<rparr>
      \<lparr>token = providerUID, generation = 0\<rparr> (''ical'' @ replicate 37 CHR ''x'') =
     Inl KeyLengthExceeded"
proof -
  let ?a = "\<lparr>token = authUID, generation = 0\<rparr>"
  let ?c = "\<lparr>token = connUID, generation = 0\<rparr>"
  let ?p = "\<lparr>token = providerUID, generation = 0\<rparr>"
  have ids: "length (token ?a) = 36" "length (token ?c) = 36"
    "token ?a \<noteq> token ?c" "token ?a \<noteq> token ?p" "token ?c \<noteq> token ?p"
    by (simp_all add: authUID_def connUID_def providerUID_def)
  have fw: "fixed_width test_digest"
    by (simp add: fixed_width_def test_digest_def computedHash_def HASH_LEN_def)
  note at40 = method_length_boundary [OF ids, of "''ical'' @ replicate 36 CHR ''x''" test_digest]
  note at41 = method_length_boundary [OF ids, of "''ical'' @ replicate 37 CHR ''x''" test_digest]
  from at40 fw have "deriveKey test_digest ?a ?c ?p (''ical'' @ replicate 36 CHR ''x'') =
      Inr ((''ical'' @ replicate 36 CHR ''x'') @ ''-'' @ test_digest (canonical ?a ?c ?p))
    \<and> length ((''ical'' @ replicate 36 CHR ''x'') @ ''-'' @ test_digest (canonical ?a ?c ?p)) = MAX_TOTAL"
    by simp
  moreover from at41 have "deriveKey test_digest ?a ?c ?p (''ical'' @ replicate 37 CHR ''x'') =
      Inl KeyLengthExceeded"
    by simp
  ultimately show ?thesis
    by (simp add: test_digest_def MAX_TOTAL_def)
qed

text \<open>
  C7. The validator returns a token exactly when its length is 36, and then unchanged;
  any other token is refused with \<open>InvalidIdentityLength\<close> naming it. A derivation whose
  auth token, or else whose connection token, is not 36 characters long fails with
  \<open>InvalidIdentityLength\<close> naming that token, and so produces no key.
\<close>

theorem identity_length_validated:
  "(validateIdentity tok = Inr tok \<longleftrightarrow> length tok = 36)
   \<and> (\<forall>t. validateIdentity tok = Inr t \<longrightarrow> t = tok)
   \<and> (length tok \<noteq> 36 \<longrightarrow> validateIdentity tok = Inl (InvalidIdentityLength tok))
   \<and> (length (token a) \<noteq> 36 \<longrightarrow>
         deriveKey h a c p m = Inl (InvalidIdentityLength (token a)))
   \<and> (length (token a) = 36 \<and> length (token c) \<noteq> 36 \<longrightarrow>
         deriveKey h a c p m = Inl (InvalidIdentityLength (token c)))"
  by (auto simp: deriveKey_def validateIdentity_def REQUIRED_WIDTH_def)

theorem identity_length_validated_witness:
  "validateIdentity authUID = Inr authUID
   \<and> validateIdentity (authUID @ ''1'') = Inl (InvalidIdentityLength (authUID @ ''1''))
   \<and> deriveKey test_digest \<lparr>token = authUID @ ''1'', generation = 0\<rparr>
        \<lparr>token = authUID, generation = 0\<rparr> \<lparr>token = providerUID, generation = 0\<rparr> ''ical'' =
      Inl (InvalidIdentityLength (authUID @ ''1''))
   \<and> deriveKey test_digest \<lparr>token = butlast authUID, generation = 0\<rparr>
        \<lparr>token = authUID, generation = 0\<rparr> \<lparr>token = providerUID, generation = 0\<rparr> ''ical'' =
      Inl (InvalidIdentityLength (butlast authUID))
   \<and> deriveKey test_digest \<lparr>token = authUID, generation = 0\<rparr>
        \<lparr>token = butlast connUID, generation = 0\<rparr> \<lparr>token = providerUID, generation = 0\<rparr> ''ical'' =
      Inl (InvalidIdentityLength (butlast connUID))"
  using identity_length_validated [of authUID _ test_digest _ _ "''ical''"]
    identity_length_validated [of "authUID @ ''1''" "\<lparr>token = authUID @ ''1'', generation = 0\<rparr>"
      test_digest "\<lparr>token = authUID, generation = 0\<rparr>" "\<lparr>token = providerUID, generation = 0\<rparr>"
      "''ical''"]
    identity_length_validated [of authUID "\<lparr>token = butlast authUID, generation = 0\<rparr>"
      test_digest "\<lparr>token = authUID, generation = 0\<rparr>" "\<lparr>token = providerUID, generation = 0\<rparr>"
      "''ical''"]
    identity_length_validated [of authUID "\<lparr>token = authUID, generation = 0\<rparr>"
      test_digest "\<lparr>token = butlast connUID, generation = 0\<rparr>" "\<lparr>token = providerUID, generation = 0\<rparr>"
      "''ical''"]
  by (simp add: authUID_def connUID_def)


end
